theory Spec2Isabelle
  imports Main "HOL-Library.AList"
begin

section \<open>Data model of the approval-task admission webhook\<close>

text \<open>
  The webhook of \<^verbatim>\<open>pkg/reconciler/webhook/webhook.go\<close> decides whether an update of an
  ApprovalTask is admitted. The types of package \<^verbatim>\<open>v1alpha1\<close> and of the Kubernetes
  admission API are declared outside the file; the records below hold the fields the
  webhook reads, under the names the Go code uses.
\<close>

type_synonym bytes = string

text \<open>\<^verbatim>\<open>v1alpha1.UserDetails\<close>: a member of a group approver. The fields are \<^verbatim>\<open>Name\<close> and
  \<^verbatim>\<open>Input\<close> in Go; they carry a prefix here because a record field name is global.\<close>

record UserDetails =
  user_Name :: string
  user_Input :: string

text \<open>\<^verbatim>\<open>v1alpha1.ApproverDetails\<close>: one entry of the approver list.\<close>

record ApproverDetails =
  Name :: string
  Input :: string
  Type :: string
  Users :: "UserDetails list"

text \<open>\<^verbatim>\<open>v1alpha1.ApproverState\<close>: a recorded response. The webhook only counts them.\<close>

record ApproverState =
  state_Name :: string
  Response :: string

record ApprovalTaskSpec =
  Approvers :: "ApproverDetails list"
  NumberOfApprovalsRequired :: int

record ApprovalTaskStatus =
  State :: string
  ApproversResponse :: "ApproverState list"

record ApprovalTask =
  Spec :: ApprovalTaskSpec
  Status :: ApprovalTaskStatus

text \<open>The authenticated requester, \<^verbatim>\<open>request.UserInfo\<close>.\<close>

record UserInfo =
  Username :: string
  Groups :: "string list"

text \<open>\<^verbatim>\<open>admissionv1.AdmissionRequest\<close>: \<open>OldObject\<close> and \<open>Object\<close> are the raw bodies
  (\<^verbatim>\<open>request.OldObject.Raw\<close>, \<^verbatim>\<open>request.Object.Raw\<close>).\<close>

record AdmissionRequest =
  UserInfo :: UserInfo
  OldObject :: bytes
  Object :: bytes

text \<open>\<^verbatim>\<open>admissionv1.AdmissionResponse\<close>: \<open>Result\<close> is the message of the status, \<open>None\<close>
  where the Go code leaves \<^verbatim>\<open>Result\<close> nil.\<close>

record AdmissionResponse =
  Allowed :: bool
  Result :: "string option"

text \<open>A Go run-time panic. The only one the webhook can raise is an index out of range.\<close>

datatype fault = IndexOutOfRange

text \<open>The value of \<^verbatim>\<open>var oldObj v1alpha1.ApprovalTask\<close> before anything is decoded into it.\<close>

definition zeroApprovalTask :: ApprovalTask where
  "zeroApprovalTask =
     \<lparr>Spec = \<lparr>Approvers = [], NumberOfApprovalsRequired = 0\<rparr>,
      Status = \<lparr>State = [], ApproversResponse = []\<rparr>\<rparr>"

section \<open>Helpers\<close>

text \<open>Modelled from the spec: \<^verbatim>\<open>v1alpha1.DefaultedApproverType\<close> is declared outside the file.
  The spec says of an entry's type: "enum {User, Group}, defaults to User when unset".\<close>

definition DefaultedApproverType :: "string \<Rightarrow> string" where
  "DefaultedApproverType t = (if t = [] then ''User'' else t)"

text \<open>Modelled from the spec: \<^verbatim>\<open>webhook.MakeErrorStatus\<close> of knative.dev/pkg is declared outside
  the file. A decode failure "is reported as a rejection" carrying the formatted message.\<close>

definition MakeErrorStatus :: "string \<Rightarrow> AdmissionResponse" where
  "MakeErrorStatus msg = \<lparr>Allowed = False, Result = Some msg\<rparr>"

text \<open>The loops over \<^verbatim>\<open>request.UserInfo.Groups\<close> and \<^verbatim>\<open>approver.Users\<close> that set the local
  flag \<^verbatim>\<open>isUserInGroup\<close>; the same two loops stand in \<^verbatim>\<open>ifUserExists\<close>,
  \<^verbatim>\<open>IsUserApprovalChanged\<close> and \<^verbatim>\<open>CheckOtherUsersForInvalidChanges\<close>.\<close>

definition isUserInGroup :: "AdmissionRequest \<Rightarrow> ApproverDetails \<Rightarrow> bool" where
  "isUserInGroup request approver =
     (list_ex (\<lambda>userGroup. Name approver = userGroup) (Groups (UserInfo request)) \<or>
      list_ex (\<lambda>user. user_Name user = Username (UserInfo request)) (Users approver))"

section \<open>The checks\<close>

definition ifUserExists :: "ApproverDetails list \<Rightarrow> AdmissionRequest \<Rightarrow> bool" where
  "ifUserExists approvals request =
     (if length approvals = 0 then True
      else list_ex (\<lambda>approval.
             if DefaultedApproverType (Type approval) = ''User''
             then Name approval = Username (UserInfo request)
             else if DefaultedApproverType (Type approval) = ''Group''
             then isUserInGroup request approval
             else False) approvals)"

definition isApprovalRequired :: "ApprovalTask \<Rightarrow> bool" where
  "isApprovalRequired approvaltask =
     (if State (Status approvaltask) = ''rejected'' \<or> State (Status approvaltask) = ''approved''
      then False
      else if int (length (ApproversResponse (Status approvaltask))) =
              NumberOfApprovalsRequired (Spec approvaltask)
      then False
      else True)"

text \<open>The text of the error of \<^verbatim>\<open>hasValidInputValue\<close>; \<open>CHR 0x27\<close> is the single quote.\<close>

definition invalidInputMessage :: "string \<Rightarrow> string" where
  "invalidInputMessage input =
     ''invalid input value: '' @ [CHR 0x27] @ input @ [CHR 0x27] @
     ''. Supported values are 'approve' or 'reject'' @ [CHR 0x27]"

text \<open>A Go \<^verbatim>\<open>error\<close> is its message, \<open>None\<close> is \<^verbatim>\<open>nil\<close>.\<close>

definition hasValidInputValue :: "string \<Rightarrow> string option" where
  "hasValidInputValue input =
     (if input = ''approve'' \<or> input = ''reject'' then None
      else Some (invalidInputMessage input))"

definition hasOnlyInputChanged :: "ApproverDetails \<Rightarrow> ApproverDetails \<Rightarrow> bool \<times> string option" where
  "hasOnlyInputChanged oldObjApprover newObjApprover =
     (if Name oldObjApprover = Name newObjApprover \<and> Input oldObjApprover \<noteq> Input newObjApprover
      then (case hasValidInputValue (Input newObjApprover) of
              Some err \<Rightarrow> (False, Some err)
            | None \<Rightarrow> (True, None))
      else (False, None))"

text \<open>The pattern "validate, then \<^verbatim>\<open>return false, err\<close> or \<^verbatim>\<open>return true, nil\<close>" of
  \<^verbatim>\<open>IsUserApprovalChanged\<close>.\<close>

definition validated :: "string \<Rightarrow> bool \<times> string option" where
  "validated input =
     (case hasValidInputValue input of Some err \<Rightarrow> (False, Some err) | None \<Rightarrow> (True, None))"

text \<open>The body of the branch \<^verbatim>\<open>if isUserInGroup { ... }\<close> of \<^verbatim>\<open>IsUserApprovalChanged\<close>, for the
  group entry \<open>approver\<close> at index \<open>i\<close>: \<open>Some r\<close> is \<^verbatim>\<open>return r\<close>, \<open>None\<close> is falling out of
  the branch, to the next index of the loop.\<close>

definition groupMemberChange ::
  "string \<Rightarrow> nat \<Rightarrow> ApproverDetails \<Rightarrow> ApproverDetails list \<Rightarrow> (bool \<times> string option) option" where
  "groupMemberChange currentUser i approver newObjApprovers =
     (if i < length newObjApprovers \<and> Input approver \<noteq> Input (newObjApprovers ! i)
      then Some (validated (Input (newObjApprovers ! i)))
      else
        let oldUserFound = list_ex (\<lambda>user. user_Name user = currentUser) (Users approver);
            newUserFound = (i < length newObjApprovers \<and>
              list_ex (\<lambda>user. user_Name user = currentUser) (Users (newObjApprovers ! i)))
        in
        if \<not> oldUserFound \<and> newUserFound
        then (if i < length newObjApprovers
              then (case find (\<lambda>user. user_Name user = currentUser) (Users (newObjApprovers ! i)) of
                      Some user \<Rightarrow> Some (validated (user_Input user))
                    | None \<Rightarrow> Some (True, None))
              else Some (True, None))
        else
          let userInOld = find (\<lambda>user. user_Name user = currentUser) (Users approver);
              userInNew = (if i < length newObjApprovers
                           then find (\<lambda>user. user_Name user = currentUser) (Users (newObjApprovers ! i))
                           else None)
          in (case userInOld of
                None \<Rightarrow> None
              | Some oldUser \<Rightarrow>
                  (case userInNew of
                     None \<Rightarrow> None
                   | Some newUser \<Rightarrow>
                       if user_Input oldUser \<noteq> user_Input newUser
                       then Some (validated (user_Input newUser))
                       else None)))"

text \<open>One round of the loop of \<^verbatim>\<open>IsUserApprovalChanged\<close>, at index \<open>i\<close> of the old list:
  \<open>Inl\<close> is the panic of \<^verbatim>\<open>newObjApprovers[i]\<close> out of range (line 295 reads it unchecked),
  \<open>Inr (Some r)\<close> is \<^verbatim>\<open>return r\<close>, \<open>Inr None\<close> goes on to index \<open>i + 1\<close>.\<close>

definition approvalChangedAt ::
  "AdmissionRequest \<Rightarrow> nat \<Rightarrow> ApproverDetails \<Rightarrow> ApproverDetails list \<Rightarrow>
     fault + (bool \<times> string option) option" where
  "approvalChangedAt request i approver newObjApprovers =
     (let currentUser = Username (UserInfo request) in
      if Name approver = currentUser \<and> DefaultedApproverType (Type approver) = ''User''
      then (if i < length newObjApprovers
            then Inr (Some (hasOnlyInputChanged approver (newObjApprovers ! i)))
            else Inl IndexOutOfRange)
      else if DefaultedApproverType (Type approver) = ''Group''
      then (if isUserInGroup request approver
            then Inr (groupMemberChange currentUser i approver newObjApprovers)
            else Inr None)
      else Inr None)"

text \<open>The loop \<^verbatim>\<open>for i, approver := range oldObjApprovers\<close>, from index \<open>i\<close> on.\<close>

fun approvalChangedFrom ::
  "AdmissionRequest \<Rightarrow> nat \<Rightarrow> ApproverDetails list \<Rightarrow> ApproverDetails list \<Rightarrow>
     fault + (bool \<times> string option)" where
  "approvalChangedFrom request i [] newObjApprovers = Inr (False, None)"
| "approvalChangedFrom request i (approver # rest) newObjApprovers =
     (case approvalChangedAt request i approver newObjApprovers of
        Inl f \<Rightarrow> Inl f
      | Inr (Some r) \<Rightarrow> Inr r
      | Inr None \<Rightarrow> approvalChangedFrom request (Suc i) rest newObjApprovers)"

definition IsUserApprovalChanged ::
  "ApproverDetails list \<Rightarrow> ApproverDetails list \<Rightarrow> AdmissionRequest \<Rightarrow>
     fault + (bool \<times> string option)" where
  "IsUserApprovalChanged oldObjApprovers newObjApprovers request =
     approvalChangedFrom request 0 oldObjApprovers newObjApprovers"

text \<open>The Go maps \<^verbatim>\<open>oldUsers\<close> and \<^verbatim>\<open>newUsers\<close> (name to input), filled in list order: a later
  member of the same name overwrites the earlier one. The keys of the association list are
  distinct, so that running over it is running over the map.\<close>

definition usersMap :: "UserDetails list \<Rightarrow> (string \<times> string) list" where
  "usersMap users = fold (\<lambda>user m. AList.update (user_Name user) (user_Input user) m) users []"

text \<open>The group part of one round of \<^verbatim>\<open>CheckOtherUsersForInvalidChanges\<close>: \<open>False\<close> is
  \<^verbatim>\<open>return false\<close>, \<open>True\<close> goes on to the next index.\<close>

definition checkGroupAt ::
  "AdmissionRequest \<Rightarrow> nat \<Rightarrow> ApproverDetails \<Rightarrow> ApproverDetails list \<Rightarrow> bool" where
  "checkGroupAt request i approver newObjApprover =
     (let currentUser = Username (UserInfo request);
          inGroup = isUserInGroup request approver
      in
      if \<not> inGroup \<and> i < length newObjApprover \<and> Input approver \<noteq> Input (newObjApprover ! i)
      then False
      else
        let oldUsers = usersMap (Users approver);
            newUsers = (if i < length newObjApprover
                        then usersMap (Users (newObjApprover ! i)) else [])
        in
        if list_ex (\<lambda>(userName, oldInput).
              userName \<noteq> currentUser \<and>
              (case map_of newUsers userName of
                 Some newInput \<Rightarrow> oldInput \<noteq> newInput
               | None \<Rightarrow> False)) oldUsers
        then False
        else if list_ex (\<lambda>(userName, newInput).
              map_of oldUsers userName = None \<and>
              (if userName \<noteq> currentUser then True else \<not> inGroup)) newUsers
        then False
        else True)"

text \<open>One round of the loop of \<^verbatim>\<open>CheckOtherUsersForInvalidChanges\<close>: \<open>Inl\<close> is the panic of
  \<^verbatim>\<open>newObjApprover[i]\<close> out of range (line 408 reads it unchecked), \<open>Inr False\<close> is
  \<^verbatim>\<open>return false\<close>, \<open>Inr True\<close> goes on to index \<open>i + 1\<close>. The two \<^verbatim>\<open>if\<close> statements of the
  body run one after the other.\<close>

definition checkOthersAt ::
  "AdmissionRequest \<Rightarrow> nat \<Rightarrow> ApproverDetails \<Rightarrow> ApproverDetails list \<Rightarrow> fault + bool" where
  "checkOthersAt request i approver newObjApprover =
     (case (if DefaultedApproverType (Type approver) = ''User'' \<and>
               Name approver \<noteq> Username (UserInfo request)
            then (if i < length newObjApprover
                  then Inr (Input approver = Input (newObjApprover ! i))
                  else Inl IndexOutOfRange)
            else Inr True) of
        Inl f \<Rightarrow> Inl f
      | Inr False \<Rightarrow> Inr False
      | Inr True \<Rightarrow>
          if DefaultedApproverType (Type approver) = ''Group''
          then Inr (checkGroupAt request i approver newObjApprover)
          else Inr True)"

fun checkOthersFrom ::
  "AdmissionRequest \<Rightarrow> nat \<Rightarrow> ApproverDetails list \<Rightarrow> ApproverDetails list \<Rightarrow> fault + bool" where
  "checkOthersFrom request i [] newObjApprover = Inr True"
| "checkOthersFrom request i (approver # rest) newObjApprover =
     (case checkOthersAt request i approver newObjApprover of
        Inl f \<Rightarrow> Inl f
      | Inr False \<Rightarrow> Inr False
      | Inr True \<Rightarrow> checkOthersFrom request (Suc i) rest newObjApprover)"

definition CheckOtherUsersForInvalidChanges ::
  "ApproverDetails list \<Rightarrow> ApproverDetails list \<Rightarrow> AdmissionRequest \<Rightarrow> fault + bool" where
  "CheckOtherUsersForInvalidChanges oldObjApprovers newObjApprover request =
     checkOthersFrom request 0 oldObjApprovers newObjApprover"

section \<open>Admit\<close>

text \<open>The JSON decoder of \<^verbatim>\<open>encoding/json\<close> (with or without \<^verbatim>\<open>DisallowUnknownFields\<close>) is a
  parameter \<open>decode\<close>: \<open>Inl err\<close> is a decode error with its text. A body of length 0 is not
  decoded: the object stays the zero value.\<close>

definition decodeObject ::
  "(bytes \<Rightarrow> string + ApprovalTask) \<Rightarrow> bytes \<Rightarrow> string + ApprovalTask" where
  "decodeObject decode raw = (if length raw \<noteq> 0 then decode raw else Inr zeroApprovalTask)"

definition denied :: "string \<Rightarrow> AdmissionResponse" where
  "denied msg = \<lparr>Allowed = False, Result = Some msg\<rparr>"

definition allowed :: AdmissionResponse where
  "allowed = \<lparr>Allowed = True, Result = None\<rparr>"

definition finalStateMessage :: string where
  "finalStateMessage = ''ApprovalTask has already reached it's final state''"

definition userMissingMessage :: string where
  "userMissingMessage = ''User does not exist in the approval list''"

definition ownInputMessage :: string where
  "ownInputMessage = ''User can only update their own approval input''"

text \<open>\<^verbatim>\<open>Admit\<close>. The kind of the request is only logged, and the logger and the context do not
  reach the response; they are left out.\<close>

definition Admit ::
  "(bytes \<Rightarrow> string + ApprovalTask) \<Rightarrow> AdmissionRequest \<Rightarrow> fault + AdmissionResponse" where
  "Admit decode request =
     (case decodeObject decode (OldObject request) of
        Inl err \<Rightarrow> Inr (MakeErrorStatus (''cannot decode incoming old object: '' @ err))
      | Inr oldObj \<Rightarrow>
          if \<not> isApprovalRequired oldObj then Inr (denied finalStateMessage)
          else if \<not> ifUserExists (Approvers (Spec oldObj)) request
          then Inr (denied userMissingMessage)
          else
            (case decodeObject decode (Object request) of
               Inl err \<Rightarrow> Inr (MakeErrorStatus (''cannot decode incoming new object: '' @ err))
             | Inr newObj \<Rightarrow>
                 (case IsUserApprovalChanged (Approvers (Spec oldObj)) (Approvers (Spec newObj))
                         request of
                    Inl f \<Rightarrow> Inl f
                  | Inr (changed, Some err) \<Rightarrow> Inr (denied (''Invalid input change: '' @ err))
                  | Inr (changed, None) \<Rightarrow>
                      if changed
                      then (case CheckOtherUsersForInvalidChanges (Approvers (Spec oldObj))
                                   (Approvers (Spec newObj)) request of
                              Inl f \<Rightarrow> Inl f
                            | Inr True \<Rightarrow> Inr allowed
                            | Inr False \<Rightarrow> Inr (denied ownInputMessage))
                      else Inr (denied ownInputMessage))))"

section \<open>Predicates of the specification\<close>

text \<open>The value \<open>v\<close> that the locator reads between the old entry \<open>a\<close> and the new entry \<open>b\<close>
  at the same index. Whose change it is, is decided on the old entry \<open>a\<close> alone: \<open>a\<close> is the
  requester's own User entry, or a Group entry the requester belongs to (by the name of \<open>a\<close>
  or by the members of \<open>a\<close>). Of the new entry \<open>b\<close> the locator compares the name in the User
  case only, and the type never. The value is the input of \<open>b\<close> when it differs from the input
  of \<open>a\<close>; in a group whose input is unchanged it is the input of the first member of the
  requester's name in \<open>b\<close>, when the first member of that name in \<open>a\<close> is missing or
  different. At most one value is located between two entries.\<close>

definition locatedValue :: "AdmissionRequest \<Rightarrow> ApproverDetails \<Rightarrow> ApproverDetails \<Rightarrow> string \<Rightarrow> bool" where
  "locatedValue request a b v =
     ((DefaultedApproverType (Type a) = ''User'' \<and> Name a = Username (UserInfo request) \<and>
       Name b = Name a \<and> Input a \<noteq> Input b \<and> Input b = v) \<or>
      (DefaultedApproverType (Type a) = ''Group'' \<and> isUserInGroup request a \<and>
       ((Input a \<noteq> Input b \<and> Input b = v) \<or>
        (Input a = Input b \<and>
         (\<exists>u \<in> set (Users b).
             find (\<lambda>user. user_Name user = Username (UserInfo request)) (Users b) = Some u \<and>
             user_Input u = v \<and>
             find (\<lambda>user. user_Name user = Username (UserInfo request)) (Users a) \<noteq> Some u)))))"



section \<open>Example tasks and requests\<close>

text \<open>Concrete values for the closed instances of the theorems below.\<close>

definition userEntry :: "string \<Rightarrow> string \<Rightarrow> ApproverDetails" where
  "userEntry n v = \<lparr>Name = n, Input = v, Type = ''User'', Users = []\<rparr>"

definition memberEntry :: "string \<Rightarrow> string \<Rightarrow> UserDetails" where
  "memberEntry n v = \<lparr>user_Name = n, user_Input = v\<rparr>"

definition groupEntry :: "string \<Rightarrow> string \<Rightarrow> UserDetails list \<Rightarrow> ApproverDetails" where
  "groupEntry n v us = \<lparr>Name = n, Input = v, Type = ''Group'', Users = us\<rparr>"

text \<open>A task that waits for one approval and has no response yet.\<close>

definition pendingTask :: "ApproverDetails list \<Rightarrow> ApprovalTask" where
  "pendingTask as =
     \<lparr>Spec = \<lparr>Approvers = as, NumberOfApprovalsRequired = 1\<rparr>,
      Status = \<lparr>State = ''pending'', ApproversResponse = []\<rparr>\<rparr>"

text \<open>A task in state pending whose one required approval is already recorded.\<close>

definition respondedTask :: "ApproverDetails list \<Rightarrow> ApprovalTask" where
  "respondedTask as =
     \<lparr>Spec = \<lparr>Approvers = as, NumberOfApprovalsRequired = 1\<rparr>,
      Status = \<lparr>State = ''pending'',
                ApproversResponse = [\<lparr>state_Name = ''alice'', Response = ''approved''\<rparr>]\<rparr>\<rparr>"

definition requestBy :: "string \<Rightarrow> string list \<Rightarrow> AdmissionRequest" where
  "requestBy u gs =
     \<lparr>UserInfo = \<lparr>Username = u, Groups = gs\<rparr>, OldObject = ''old'', Object = ''new''\<rparr>"

text \<open>A decoder that reads the body \<open>''old''\<close> as one task and \<open>''new''\<close> as another.\<close>

definition decodeAs :: "ApprovalTask \<Rightarrow> ApprovalTask \<Rightarrow> bytes \<Rightarrow> string + ApprovalTask" where
  "decodeAs oldObj newObj raw =
     (if raw = ''old'' then Inr oldObj
      else if raw = ''new'' then Inr newObj
      else Inl ''unexpected end of JSON input'')"

lemmas fixture_defs =
  userEntry_def memberEntry_def groupEntry_def pendingTask_def respondedTask_def
  requestBy_def decodeAs_def

lemmas entry_defs = isUserInGroup_def DefaultedApproverType_def

lemmas locator_defs =
  IsUserApprovalChanged_def approvalChangedAt_def groupMemberChange_def hasOnlyInputChanged_def
  validated_def hasValidInputValue_def

lemmas isolation_defs =
  CheckOtherUsersForInvalidChanges_def checkOthersAt_def checkGroupAt_def usersMap_def

lemmas admit_defs =
  Admit_def decodeObject_def isApprovalRequired_def ifUserExists_def denied_def allowed_def
  MakeErrorStatus_def

section \<open>Closed tasks\<close>

lemma closed_denied_aux:
  "decodeObject decode (OldObject request) = Inr oldObj \<Longrightarrow> \<not> isApprovalRequired oldObj \<Longrightarrow>
   Admit decode request = Inr (denied finalStateMessage)"
  by (simp add: Admit_def)

lemma isApprovalRequired_iff:
  "isApprovalRequired t \<longleftrightarrow>
     State (Status t) \<noteq> ''rejected'' \<and> State (Status t) \<noteq> ''approved'' \<and>
     int (length (ApproversResponse (Status t))) \<noteq> NumberOfApprovalsRequired (Spec t)"
  by (simp add: isApprovalRequired_def)

text \<open>
  C1. When the old task is closed (state approved or rejected, or as many recorded responses
  as approvals required), \<open>Admit\<close> denies with the final-state message, whoever the requester
  is and whatever the new body is: the requester and the new body are arbitrary, the new body
  need not even decode, and no later rule is consulted.
\<close>

theorem closed_task_denied:
  assumes "decodeObject decode oldRaw = Inr oldObj"
    and "State (Status oldObj) = ''approved'' \<or> State (Status oldObj) = ''rejected'' \<or>
         int (length (ApproversResponse (Status oldObj))) = NumberOfApprovalsRequired (Spec oldObj)"
  shows "Admit decode \<lparr>UserInfo = requester, OldObject = oldRaw, Object = newRaw\<rparr> =
           Inr \<lparr>Allowed = False, Result = Some finalStateMessage\<rparr>"
proof -
  from assms(2) have "\<not> isApprovalRequired oldObj"
    by (auto simp: isApprovalRequired_iff)
  with assms(1) show ?thesis
    using closed_denied_aux [of decode "\<lparr>UserInfo = requester, OldObject = oldRaw, Object = newRaw\<rparr>" oldObj]
    by (simp add: denied_def)
qed

theorem closed_task_denied_witness:
  "decodeObject (decodeAs (respondedTask [userEntry ''alice'' '''']) zeroApprovalTask) ''old'' =
     Inr (respondedTask [userEntry ''alice'' '''']) \<and>
   int (length (ApproversResponse (Status (respondedTask [userEntry ''alice'' ''''])))) =
     NumberOfApprovalsRequired (Spec (respondedTask [userEntry ''alice'' ''''])) \<and>
   Admit (decodeAs (respondedTask [userEntry ''alice'' '''']) zeroApprovalTask)
     \<lparr>UserInfo = \<lparr>Username = ''alice'', Groups = []\<rparr>, OldObject = ''old'', Object = ''{''\<rparr> =
     Inr \<lparr>Allowed = False, Result = Some finalStateMessage\<rparr>"
proof -
  have d: "decodeObject (decodeAs (respondedTask [userEntry ''alice'' '''']) zeroApprovalTask) ''old'' =
     Inr (respondedTask [userEntry ''alice'' ''''])"
    by (simp add: decodeObject_def decodeAs_def)
  have c: "int (length (ApproversResponse (Status (respondedTask [userEntry ''alice'' ''''])))) =
     NumberOfApprovalsRequired (Spec (respondedTask [userEntry ''alice'' '''']))"
    by (simp add: respondedTask_def)
  from c have c': "State (Status (respondedTask [userEntry ''alice'' ''''])) = ''approved'' \<or>
     State (Status (respondedTask [userEntry ''alice'' ''''])) = ''rejected'' \<or>
     int (length (ApproversResponse (Status (respondedTask [userEntry ''alice'' ''''])))) =
     NumberOfApprovalsRequired (Spec (respondedTask [userEntry ''alice'' '''']))"
    by blast
  show ?thesis
    using d c closed_task_denied [OF d c', of "\<lparr>Username = ''alice'', Groups = []\<rparr>" "''{''"]
    by blast
qed

text \<open>
  C10. A request whose old body is empty leaves the old task at the zero value, whose count of
  responses (0) equals its number of required approvals (0): the request is denied, that is
  answered with \<open>Allowed = False\<close> and the message "ApprovalTask has already reached it's final
  state". More generally every old task whose number of required approvals equals its count of
  responses, 0 included, is denied so for every requester.
\<close>

theorem empty_old_body_denied:
  "(OldObject request = [] \<longrightarrow>
      decodeObject decode (OldObject request) = Inr zeroApprovalTask \<and>
      int (length (ApproversResponse (Status zeroApprovalTask))) = 0 \<and>
      NumberOfApprovalsRequired (Spec zeroApprovalTask) = 0 \<and>
      Admit decode request =
        Inr \<lparr>Allowed = False,
             Result = Some ''ApprovalTask has already reached it's final state''\<rparr>) \<and>
   (decodeObject decode (OldObject request) = Inr oldObj \<and>
    int (length (ApproversResponse (Status oldObj))) = NumberOfApprovalsRequired (Spec oldObj) \<longrightarrow>
      Admit decode request =
        Inr \<lparr>Allowed = False,
             Result = Some ''ApprovalTask has already reached it's final state''\<rparr>)"
proof (intro conjI impI)
  assume e: "OldObject request = []"
  then show d: "decodeObject decode (OldObject request) = Inr zeroApprovalTask"
    by (simp add: decodeObject_def)
  show "int (length (ApproversResponse (Status zeroApprovalTask))) = 0"
    and "NumberOfApprovalsRequired (Spec zeroApprovalTask) = 0"
    by (simp_all add: zeroApprovalTask_def)
  have "\<not> isApprovalRequired zeroApprovalTask"
    by (simp add: isApprovalRequired_def zeroApprovalTask_def)
  with d have "Admit decode request = Inr (denied finalStateMessage)"
    by (rule closed_denied_aux)
  then show "Admit decode request =
        Inr \<lparr>Allowed = False,
             Result = Some ''ApprovalTask has already reached it's final state''\<rparr>"
    by (simp add: denied_def finalStateMessage_def)
next
  assume "decodeObject decode (OldObject request) = Inr oldObj \<and>
    int (length (ApproversResponse (Status oldObj))) = NumberOfApprovalsRequired (Spec oldObj)"
  then have "Admit decode request = Inr (denied finalStateMessage)"
    by (simp add: closed_denied_aux isApprovalRequired_iff)
  then show "Admit decode request =
        Inr \<lparr>Allowed = False,
             Result = Some ''ApprovalTask has already reached it's final state''\<rparr>"
    by (simp add: denied_def finalStateMessage_def)
qed

theorem empty_old_body_denied_witness:
  "OldObject ((requestBy ''alice'' [])\<lparr>OldObject := []\<rparr>) = [] \<and>
   Admit (decodeAs (pendingTask [userEntry ''alice'' '''']) (pendingTask [userEntry ''alice'' ''approve'']))
     ((requestBy ''alice'' [])\<lparr>OldObject := []\<rparr>) =
     Inr \<lparr>Allowed = False,
          Result = Some ''ApprovalTask has already reached it's final state''\<rparr> \<and>
   decodeObject (decodeAs (respondedTask []) (respondedTask [])) (OldObject (requestBy ''bob'' [])) =
     Inr (respondedTask []) \<and>
   int (length (ApproversResponse (Status (respondedTask [])))) =
     NumberOfApprovalsRequired (Spec (respondedTask [])) \<and>
   Admit (decodeAs (respondedTask []) (respondedTask [])) (requestBy ''bob'' []) =
     Inr \<lparr>Allowed = False,
          Result = Some ''ApprovalTask has already reached it's final state''\<rparr>"
proof -
  have e: "OldObject ((requestBy ''alice'' [])\<lparr>OldObject := []\<rparr>) = []"
    by simp
  have d: "decodeObject (decodeAs (respondedTask []) (respondedTask []))
      (OldObject (requestBy ''bob'' [])) = Inr (respondedTask [])"
    by (simp add: decodeObject_def decodeAs_def requestBy_def)
  have c: "int (length (ApproversResponse (Status (respondedTask [])))) =
     NumberOfApprovalsRequired (Spec (respondedTask []))"
    by (simp add: respondedTask_def)
  show ?thesis
    using e d c
      empty_old_body_denied [of "(requestBy ''alice'' [])\<lparr>OldObject := []\<rparr>"
        "decodeAs (pendingTask [userEntry ''alice'' '''']) (pendingTask [userEntry ''alice'' ''approve''])"]
      empty_old_body_denied [of "requestBy ''bob'' []"
        "decodeAs (respondedTask []) (respondedTask [])" "respondedTask []"]
    by blast
qed

section \<open>Eligibility\<close>

lemma matchesRequester_iff:
  "(if DefaultedApproverType (Type a) = ''User''
    then Name a = Username (UserInfo request)
    else if DefaultedApproverType (Type a) = ''Group''
    then isUserInGroup request a else False) \<longleftrightarrow>
   (DefaultedApproverType (Type a) = ''User'' \<and> Name a = Username (UserInfo request)) \<or>
   (DefaultedApproverType (Type a) = ''Group'' \<and>
      (Name a \<in> set (Groups (UserInfo request)) \<or>
       (\<exists>u \<in> set (Users a). user_Name u = Username (UserInfo request))))"
  by (auto simp: isUserInGroup_def list_ex_iff)

lemma ifUserExists_set:
  "ifUserExists approvals request \<longleftrightarrow>
      approvals = [] \<or>
      (\<exists>a \<in> set approvals.
         (DefaultedApproverType (Type a) = ''User'' \<and> Name a = Username (UserInfo request)) \<or>
         (DefaultedApproverType (Type a) = ''Group'' \<and>
            (Name a \<in> set (Groups (UserInfo request)) \<or>
             (\<exists>u \<in> set (Users a). user_Name u = Username (UserInfo request)))))"
  unfolding ifUserExists_def list_ex_iff matchesRequester_iff by simp

text \<open>
  C4 (as the code has it). \<open>ifUserExists\<close> holds for every requester when the approver list is
  empty; for a non-empty list it holds exactly when some entry matches the requester: a User
  entry of the requester's name, a Group entry whose name is one of the requester's groups,
  or a Group entry with a member of the requester's name. When it fails, \<open>Admit\<close> denies
  (\<open>Allowed = False\<close>): with the message "User does not exist in the approval list" when the
  old task is not closed, and with the message of a closed task, "ApprovalTask has already
  reached it's final state", when it is closed, since that check comes first.
\<close>

theorem ifUserExists_iff:
  "(ifUserExists approvals request \<longleftrightarrow>
      approvals = [] \<or>
      (\<exists>a \<in> set approvals.
         (DefaultedApproverType (Type a) = ''User'' \<and> Name a = Username (UserInfo request)) \<or>
         (DefaultedApproverType (Type a) = ''Group'' \<and>
            (Name a \<in> set (Groups (UserInfo request)) \<or>
             (\<exists>u \<in> set (Users a). user_Name u = Username (UserInfo request)))))) \<and>
   (decodeObject decode (OldObject request) = Inr oldObj \<and>
    \<not> ifUserExists (Approvers (Spec oldObj)) request \<longrightarrow>
      Admit decode request =
        Inr \<lparr>Allowed = False,
             Result = Some (if State (Status oldObj) = ''rejected'' \<or>
                               State (Status oldObj) = ''approved'' \<or>
                               int (length (ApproversResponse (Status oldObj))) =
                                 NumberOfApprovalsRequired (Spec oldObj)
                            then ''ApprovalTask has already reached it's final state''
                            else ''User does not exist in the approval list'')\<rparr>)"
  using ifUserExists_set [of approvals request]
  by (simp add: Admit_def isApprovalRequired_def denied_def finalStateMessage_def
      userMissingMessage_def)

theorem ifUserExists_iff_witness:
  "ifUserExists [] (requestBy ''bob'' []) \<and>
   ifUserExists [groupEntry ''qa'' '''' [memberEntry ''carol'' '''']] (requestBy ''carol'' []) \<and>
   decodeObject (decodeAs (pendingTask [userEntry ''alice'' '''']) (pendingTask [userEntry ''alice'' ''approve'']))
     (OldObject (requestBy ''bob'' [])) = Inr (pendingTask [userEntry ''alice'' '''']) \<and>
   \<not> ifUserExists (Approvers (Spec (pendingTask [userEntry ''alice'' '''']))) (requestBy ''bob'' []) \<and>
   Admit (decodeAs (pendingTask [userEntry ''alice'' '''']) (pendingTask [userEntry ''alice'' ''approve'']))
     (requestBy ''bob'' []) =
     Inr \<lparr>Allowed = False, Result = Some ''User does not exist in the approval list''\<rparr>"
proof -
  have a: "ifUserExists [] (requestBy ''bob'' [])"
    using ifUserExists_iff [of "[]" "requestBy ''bob'' []"] by simp
  have b: "ifUserExists [groupEntry ''qa'' '''' [memberEntry ''carol'' '''']] (requestBy ''carol'' [])"
    using ifUserExists_iff [of "[groupEntry ''qa'' '''' [memberEntry ''carol'' '''']]"
        "requestBy ''carol'' []"]
    by (simp add: groupEntry_def memberEntry_def requestBy_def DefaultedApproverType_def)
  have d: "decodeObject (decodeAs (pendingTask [userEntry ''alice'' '''']) (pendingTask [userEntry ''alice'' ''approve'']))
     (OldObject (requestBy ''bob'' [])) = Inr (pendingTask [userEntry ''alice'' ''''])"
    by (simp add: decodeObject_def decodeAs_def requestBy_def)
  have n: "\<not> ifUserExists (Approvers (Spec (pendingTask [userEntry ''alice'' '''']))) (requestBy ''bob'' [])"
    by (simp add: ifUserExists_def pendingTask_def userEntry_def requestBy_def
        DefaultedApproverType_def)
  have "Admit (decodeAs (pendingTask [userEntry ''alice'' '''']) (pendingTask [userEntry ''alice'' ''approve'']))
     (requestBy ''bob'' []) =
     Inr \<lparr>Allowed = False, Result = Some ''User does not exist in the approval list''\<rparr>"
    using d n
      ifUserExists_iff [of "[]" "requestBy ''bob'' []"
        "decodeAs (pendingTask [userEntry ''alice'' '''']) (pendingTask [userEntry ''alice'' ''approve''])"
        "pendingTask [userEntry ''alice'' '''']"]
    by (simp add: pendingTask_def)
  with a b d n show ?thesis by blast
qed

text \<open>
  The requester matches no entry of a non-empty approver list, and the denial does not carry
  the user-does-not-exist reason: the old task is closed, and the closed-task denial comes first.
\<close>

theorem ifUserExists_iff_counterexample:
  "Approvers (Spec (respondedTask [userEntry ''alice'' ''''])) \<noteq> [] \<and>
   \<not> ifUserExists (Approvers (Spec (respondedTask [userEntry ''alice'' '''']))) (requestBy ''bob'' []) \<and>
   Admit (decodeAs (respondedTask [userEntry ''alice'' '''']) (respondedTask [userEntry ''alice'' ''approve'']))
     (requestBy ''bob'' []) =
     Inr \<lparr>Allowed = False,
          Result = Some ''ApprovalTask has already reached it's final state''\<rparr> \<and>
   Admit (decodeAs (respondedTask [userEntry ''alice'' '''']) (respondedTask [userEntry ''alice'' ''approve'']))
     (requestBy ''bob'' []) \<noteq>
     Inr \<lparr>Allowed = False, Result = Some ''User does not exist in the approval list''\<rparr>"
  by (simp add: admit_defs fixture_defs finalStateMessage_def userMissingMessage_def
      DefaultedApproverType_def)

section \<open>The scan of the change locator\<close>

lemma approvalChangedFrom_skip:
  "\<forall>j<length pre. approvalChangedAt request (k + j) (pre ! j) new = Inr None \<Longrightarrow>
   approvalChangedFrom request k (pre @ rest) new =
     approvalChangedFrom request (k + length pre) rest new"
proof (induction pre arbitrary: k)
  case Nil
  then show ?case by simp
next
  case (Cons a pre)
  from Cons.prems have h: "approvalChangedAt request k a new = Inr None"
    by fastforce
  have "\<forall>j<length pre. approvalChangedAt request (Suc k + j) (pre ! j) new = Inr None"
  proof (intro allI impI)
    fix j assume "j < length pre"
    with Cons.prems have "approvalChangedAt request (k + Suc j) ((a # pre) ! Suc j) new = Inr None"
      by (metis length_Cons Suc_less_eq)
    then show "approvalChangedAt request (Suc k + j) (pre ! j) new = Inr None" by simp
  qed
  from Cons.IH [OF this] h show ?case by simp
qed


lemma validated_cases:
  "validated v = (if v = ''approve'' \<or> v = ''reject'' then (True, None)
                  else (False, Some (invalidInputMessage v)))"
  by (simp add: validated_def hasValidInputValue_def)

lemma hasOnlyInputChanged_validated:
  "hasOnlyInputChanged a b =
     (if Name a = Name b \<and> Input a \<noteq> Input b then validated (Input b) else (False, None))"
  by (simp add: hasOnlyInputChanged_def validated_def)

lemma list_ex_find:
  "list_ex P xs \<longleftrightarrow> find P xs \<noteq> None"
  by (induction xs) auto

lemma find_in_set:
  "find P xs = Some x \<Longrightarrow> x \<in> set xs \<and> P x"
  by (induction xs) (auto split: if_splits)



lemma IsUserApprovalChanged_at:
  assumes "\<forall>j<length pre. approvalChangedAt request j (pre ! j) new = Inr None"
  shows "IsUserApprovalChanged (pre @ a # post) new request =
           (case approvalChangedAt request (length pre) a new of
              Inl f \<Rightarrow> Inl f
            | Inr None \<Rightarrow> approvalChangedFrom request (Suc (length pre)) post new
            | Inr (Some r) \<Rightarrow> Inr r)"
proof -
  from assms have "\<forall>j<length pre. approvalChangedAt request (0 + j) (pre ! j) new = Inr None"
    by simp
  from approvalChangedFrom_skip [OF this, of "a # post"] show ?thesis
    by (simp add: IsUserApprovalChanged_def)
qed

section \<open>Denial messages\<close>

text \<open>
  C9 (as the code has it). A closed task is denied with exactly the message
  "ApprovalTask has already reached it's final state", and a requester who matches no entry of
  a non-empty approver list of an open task with exactly "User does not exist in the approval
  list".
\<close>

theorem denial_messages:
  "(decodeObject decode (OldObject request) = Inr oldObj \<and> \<not> isApprovalRequired oldObj \<longrightarrow>
      Admit decode request =
        Inr \<lparr>Allowed = False, Result = Some ''ApprovalTask has already reached it's final state''\<rparr>) \<and>
   (decodeObject decode (OldObject request) = Inr oldObj \<and> isApprovalRequired oldObj \<and>
    \<not> ifUserExists (Approvers (Spec oldObj)) request \<longrightarrow>
      Admit decode request =
        Inr \<lparr>Allowed = False, Result = Some ''User does not exist in the approval list''\<rparr>)"
  by (simp add: Admit_def denied_def finalStateMessage_def userMissingMessage_def)

theorem denial_messages_witness:
  "decodeObject (decodeAs (respondedTask [userEntry ''alice'' '''']) (respondedTask [userEntry ''alice'' ''approve'']))
     (OldObject (requestBy ''alice'' [])) = Inr (respondedTask [userEntry ''alice'' '''']) \<and>
   \<not> isApprovalRequired (respondedTask [userEntry ''alice'' '''']) \<and>
   Admit (decodeAs (respondedTask [userEntry ''alice'' '''']) (respondedTask [userEntry ''alice'' ''approve'']))
     (requestBy ''alice'' []) =
     Inr \<lparr>Allowed = False, Result = Some ''ApprovalTask has already reached it's final state''\<rparr> \<and>
   decodeObject (decodeAs (pendingTask [userEntry ''alice'' '''']) (pendingTask [userEntry ''alice'' ''approve'']))
     (OldObject (requestBy ''bob'' [])) = Inr (pendingTask [userEntry ''alice'' '''']) \<and>
   isApprovalRequired (pendingTask [userEntry ''alice'' '''']) \<and>
   \<not> ifUserExists (Approvers (Spec (pendingTask [userEntry ''alice'' '''']))) (requestBy ''bob'' []) \<and>
   Admit (decodeAs (pendingTask [userEntry ''alice'' '''']) (pendingTask [userEntry ''alice'' ''approve'']))
     (requestBy ''bob'' []) =
     Inr \<lparr>Allowed = False, Result = Some ''User does not exist in the approval list''\<rparr>"
proof -
  have d1: "decodeObject (decodeAs (respondedTask [userEntry ''alice'' '''']) (respondedTask [userEntry ''alice'' ''approve'']))
     (OldObject (requestBy ''alice'' [])) = Inr (respondedTask [userEntry ''alice'' ''''])"
    by (simp add: decodeObject_def decodeAs_def requestBy_def)
  have c1: "\<not> isApprovalRequired (respondedTask [userEntry ''alice'' ''''])"
    by (simp add: isApprovalRequired_def respondedTask_def)
  have d2: "decodeObject (decodeAs (pendingTask [userEntry ''alice'' '''']) (pendingTask [userEntry ''alice'' ''approve'']))
     (OldObject (requestBy ''bob'' [])) = Inr (pendingTask [userEntry ''alice'' ''''])"
    by (simp add: decodeObject_def decodeAs_def requestBy_def)
  have r2: "isApprovalRequired (pendingTask [userEntry ''alice'' ''''])"
    by (simp add: isApprovalRequired_def pendingTask_def)
  have n2: "\<not> ifUserExists (Approvers (Spec (pendingTask [userEntry ''alice'' '''']))) (requestBy ''bob'' [])"
    by (simp add: ifUserExists_def pendingTask_def userEntry_def requestBy_def
        DefaultedApproverType_def)
  show ?thesis
    using d1 c1 d2 r2 n2
      denial_messages [of
        "decodeAs (respondedTask [userEntry ''alice'' '''']) (respondedTask [userEntry ''alice'' ''approve''])"
        "requestBy ''alice'' []" "respondedTask [userEntry ''alice'' '''']"]
      denial_messages [of
        "decodeAs (pendingTask [userEntry ''alice'' '''']) (pendingTask [userEntry ''alice'' ''approve''])"
        "requestBy ''bob'' []" "pendingTask [userEntry ''alice'' '''']"]
    by blast
qed

text \<open>
  The messages of the code are not the strings of the specification: the first has "it's"
  where the specification writes "its", the second begins with a capital letter.
\<close>

theorem denial_messages_counterexample:
  "Admit (decodeAs (respondedTask [userEntry ''alice'' '''']) (respondedTask [userEntry ''alice'' ''approve'']))
     (requestBy ''alice'' []) =
     Inr \<lparr>Allowed = False, Result = Some ''ApprovalTask has already reached it's final state''\<rparr> \<and>
   Admit (decodeAs (respondedTask [userEntry ''alice'' '''']) (respondedTask [userEntry ''alice'' ''approve'']))
     (requestBy ''alice'' []) \<noteq>
     Inr \<lparr>Allowed = False, Result = Some ''ApprovalTask has already reached its final state''\<rparr> \<and>
   Admit (decodeAs (pendingTask [userEntry ''alice'' '''']) (pendingTask [userEntry ''alice'' ''approve'']))
     (requestBy ''bob'' []) =
     Inr \<lparr>Allowed = False, Result = Some ''User does not exist in the approval list''\<rparr> \<and>
   Admit (decodeAs (pendingTask [userEntry ''alice'' '''']) (pendingTask [userEntry ''alice'' ''approve'']))
     (requestBy ''bob'' []) \<noteq>
     Inr \<lparr>Allowed = False, Result = Some ''user does not exist in the approval list''\<rparr>"
  by (simp add: admit_defs fixture_defs finalStateMessage_def userMissingMessage_def
      DefaultedApproverType_def)

section \<open>A new list shorter than the old one\<close>

text \<open>
  C2. The specification asks that an old index with no entry in the new list be skipped, for
  User entries as for Group entries, with no unchecked fault. The Group branches test \<open>i < len(new)\<close>; the User branches
  read \<open>new[i]\<close> unchecked: with a User entry of the requester at an index the new list does
  not have, \<open>IsUserApprovalChanged\<close> panics, and with a User entry of somebody else there,
  \<open>CheckOtherUsersForInvalidChanges\<close> panics, and so does \<open>Admit\<close>. A Group entry at such an
  index is skipped by both.
\<close>

theorem shorter_new_list_panics:
  "IsUserApprovalChanged [userEntry ''alice'' ''''] [] (requestBy ''alice'' []) = Inl IndexOutOfRange \<and>
   CheckOtherUsersForInvalidChanges [userEntry ''alice'' '''', userEntry ''bob'' '''']
     [userEntry ''alice'' ''approve''] (requestBy ''alice'' []) = Inl IndexOutOfRange \<and>
   Admit (decodeAs (pendingTask [userEntry ''alice'' '''']) (pendingTask [])) (requestBy ''alice'' []) =
     Inl IndexOutOfRange \<and>
   Admit (decodeAs (pendingTask [userEntry ''alice'' '''', userEntry ''bob'' ''''])
       (pendingTask [userEntry ''alice'' ''approve''])) (requestBy ''alice'' []) =
     Inl IndexOutOfRange \<and>
   IsUserApprovalChanged [groupEntry ''qa'' '''' [memberEntry ''carol'' '''']] []
     (requestBy ''carol'' []) = Inr (False, None) \<and>
   CheckOtherUsersForInvalidChanges [groupEntry ''qa'' '''' [memberEntry ''carol'' '''']] []
     (requestBy ''carol'' []) = Inr True"
  by (simp add: admit_defs fixture_defs entry_defs locator_defs isolation_defs)

section \<open>The requester's own User entry\<close>

text \<open>
  C7 (as the code has it). Let \<open>i\<close> be an index the scan reaches (no earlier index returns)
  at which the old list holds a User entry of the requester's name, and let the new list have
  an entry at \<open>i\<close>. Then a change is located at \<open>i\<close> exactly when \<open>new[i]\<close> keeps the name of
  \<open>old[i]\<close>, the inputs differ and the new input is "approve" or "reject"; when the name is
  kept and the inputs differ but the new input is another value, the validation error is
  returned; in every other case no change is located and no error is returned. The name of
  \<open>new[i]\<close> is a condition besides the inputs.
\<close>

theorem own_user_entry_change:
  assumes "i < length old" and "i < length new"
    and "DefaultedApproverType (Type (old ! i)) = ''User''"
    and "Name (old ! i) = Username (UserInfo request)"
    and "\<forall>j<i. approvalChangedAt request j (old ! j) new = Inr None"
  shows "IsUserApprovalChanged old new request =
     Inr (if Name (new ! i) = Name (old ! i) \<and> Input (old ! i) \<noteq> Input (new ! i)
          then (if Input (new ! i) = ''approve'' \<or> Input (new ! i) = ''reject''
                then (True, None)
                else (False, Some (invalidInputMessage (Input (new ! i)))))
          else (False, None))"
proof -
  let ?pre = "take i old"
  from assms(1) have split: "old = ?pre @ old ! i # drop (Suc i) old"
    by (rule id_take_nth_drop)
  from assms(1) have len: "length ?pre = i" by simp
  have "\<forall>j<length ?pre. approvalChangedAt request j (?pre ! j) new = Inr None"
    using assms(5) len by simp
  then have "IsUserApprovalChanged (?pre @ old ! i # drop (Suc i) old) new request =
          (case approvalChangedAt request (length ?pre) (old ! i) new of
              Inl f \<Rightarrow> Inl f
            | Inr None \<Rightarrow> approvalChangedFrom request (Suc (length ?pre)) (drop (Suc i) old) new
            | Inr (Some r) \<Rightarrow> Inr r)"
    by (rule IsUserApprovalChanged_at)
  moreover have "approvalChangedAt request (length ?pre) (old ! i) new =
      Inr (Some (hasOnlyInputChanged (old ! i) (new ! i)))"
    unfolding len using assms(2,3,4) by (simp add: approvalChangedAt_def)
  ultimately have "IsUserApprovalChanged (?pre @ old ! i # drop (Suc i) old) new request =
      Inr (hasOnlyInputChanged (old ! i) (new ! i))"
    by simp
  with split have "IsUserApprovalChanged old new request =
      Inr (hasOnlyInputChanged (old ! i) (new ! i))"
    by simp
  then show ?thesis
    by (simp add: hasOnlyInputChanged_validated validated_cases eq_commute [of "Name (new ! i)"])
qed

theorem own_user_entry_change_witness:
  "(1::nat) < length [groupEntry ''qa'' '''' [], userEntry ''alice'' ''''] \<and>
   (1::nat) < length [groupEntry ''qa'' '''' [], userEntry ''alice'' ''approve''] \<and>
   DefaultedApproverType (Type ([groupEntry ''qa'' '''' [], userEntry ''alice'' ''''] ! 1)) = ''User'' \<and>
   Name ([groupEntry ''qa'' '''' [], userEntry ''alice'' ''''] ! 1) =
     Username (UserInfo (requestBy ''alice'' [''qa''])) \<and>
   approvalChangedAt (requestBy ''alice'' [''qa'']) 0
     ([groupEntry ''qa'' '''' [], userEntry ''alice'' ''''] ! 0)
     [groupEntry ''qa'' '''' [], userEntry ''alice'' ''approve''] = Inr None \<and>
   IsUserApprovalChanged [groupEntry ''qa'' '''' [], userEntry ''alice'' '''']
     [groupEntry ''qa'' '''' [], userEntry ''alice'' ''approve''] (requestBy ''alice'' [''qa'']) =
     Inr (True, None)"
proof -
  have l1: "(1::nat) < length [groupEntry ''qa'' '''' [], userEntry ''alice'' '''']"
    and l2: "(1::nat) < length [groupEntry ''qa'' '''' [], userEntry ''alice'' ''approve'']"
    by simp_all
  have t: "DefaultedApproverType (Type ([groupEntry ''qa'' '''' [], userEntry ''alice'' ''''] ! 1)) = ''User''"
    by (simp add: userEntry_def DefaultedApproverType_def)
  have n: "Name ([groupEntry ''qa'' '''' [], userEntry ''alice'' ''''] ! 1) =
     Username (UserInfo (requestBy ''alice'' [''qa'']))"
    by (simp add: userEntry_def requestBy_def)
  have s: "approvalChangedAt (requestBy ''alice'' [''qa'']) 0
     ([groupEntry ''qa'' '''' [], userEntry ''alice'' ''''] ! 0)
     [groupEntry ''qa'' '''' [], userEntry ''alice'' ''approve''] = Inr None"
    by (simp add: fixture_defs entry_defs locator_defs)
  from s have p: "\<forall>j<1. approvalChangedAt (requestBy ''alice'' [''qa'']) j
     ([groupEntry ''qa'' '''' [], userEntry ''alice'' ''''] ! j)
     [groupEntry ''qa'' '''' [], userEntry ''alice'' ''approve''] = Inr None"
    by simp
  have "IsUserApprovalChanged [groupEntry ''qa'' '''' [], userEntry ''alice'' '''']
     [groupEntry ''qa'' '''' [], userEntry ''alice'' ''approve''] (requestBy ''alice'' [''qa'']) =
     Inr (True, None)"
    using own_user_entry_change [OF l1 l2 t n p] by (simp add: userEntry_def)
  with l1 l2 t n s show ?thesis by blast
qed

text \<open>
  The inputs of the requester's User entry differ and the new input is valid, and yet no change
  is located: the new entry bears another name.
\<close>

theorem own_user_entry_change_counterexample:
  "DefaultedApproverType (Type ([userEntry ''alice'' ''''] ! 0)) = ''User'' \<and>
   Name ([userEntry ''alice'' ''''] ! 0) = Username (UserInfo (requestBy ''alice'' [])) \<and>
   Input ([userEntry ''alice'' ''''] ! 0) \<noteq> Input ([userEntry ''bob'' ''approve''] ! 0) \<and>
   hasValidInputValue (Input ([userEntry ''bob'' ''approve''] ! 0)) = None \<and>
   IsUserApprovalChanged [userEntry ''alice'' ''''] [userEntry ''bob'' ''approve'']
     (requestBy ''alice'' []) = Inr (False, None)"
  by (simp add: fixture_defs entry_defs locator_defs)

section \<open>Located values and their validation\<close>

lemma find_requester_differs:
  assumes "find (\<lambda>user. user_Name user = n) us = Some (x :: UserDetails)"
    and "find (\<lambda>user. user_Name user = n) vs = Some y"
  shows "x \<noteq> y \<longleftrightarrow> user_Input x \<noteq> user_Input y"
proof -
  from assms have "user_Name x = user_Name y"
    by (auto dest!: find_in_set)
  then show ?thesis by auto
qed

lemma located_step:
  assumes "i < length new" and "locatedValue request a (new ! i) v"
  shows "approvalChangedAt request i a new = Inr (Some (validated v))"
proof (cases "DefaultedApproverType (Type a) = ''User''")
  case True
  with assms show ?thesis
    by (auto simp: locatedValue_def approvalChangedAt_def hasOnlyInputChanged_validated)
next
  case False
  with assms(2) have g: "DefaultedApproverType (Type a) = ''Group''"
    and m: "isUserInGroup request a"
    by (auto simp: locatedValue_def)
  have "groupMemberChange (Username (UserInfo request)) i a new = Some (validated v)"
  proof (cases "Input a = Input (new ! i)")
    case False
    with assms g show ?thesis
      by (auto simp: locatedValue_def groupMemberChange_def)
  next
    case True
    with assms(2) g obtain u where
      u: "find (\<lambda>user. user_Name user = Username (UserInfo request)) (Users (new ! i)) = Some u"
      and v: "user_Input u = v"
      and d: "find (\<lambda>user. user_Name user = Username (UserInfo request)) (Users a) \<noteq> Some u"
      by (auto simp: locatedValue_def)
    show ?thesis
    proof (cases "find (\<lambda>user. user_Name user = Username (UserInfo request)) (Users a)")
      case None
      with True u v assms(1) show ?thesis
        by (simp add: groupMemberChange_def list_ex_find)
    next
      case (Some w)
      with d have "w \<noteq> u" by simp
      with find_requester_differs [OF Some u] have "user_Input w \<noteq> user_Input u" by simp
      with True Some u v assms(1) show ?thesis
        by (simp add: groupMemberChange_def list_ex_find)
    qed
  qed
  with g m False show ?thesis
    by (simp add: approvalChangedAt_def)
qed







section \<open>Where the scan stops\<close>

lemma group_change_found:
  assumes "DefaultedApproverType (Type a) = ''Group''" and "isUserInGroup request a"
    and "i < length new"
    and "Input a \<noteq> Input (new ! i) \<or>
         (find (\<lambda>user. user_Name user = Username (UserInfo request)) (Users a) = None \<and>
          find (\<lambda>user. user_Name user = Username (UserInfo request)) (Users (new ! i)) \<noteq> None) \<or>
         (\<exists>x \<in> set (Users a). \<exists>y \<in> set (Users (new ! i)).
            find (\<lambda>user. user_Name user = Username (UserInfo request)) (Users a) = Some x \<and>
            find (\<lambda>user. user_Name user = Username (UserInfo request)) (Users (new ! i)) = Some y \<and>
            user_Input x \<noteq> user_Input y)"
  shows "\<exists>v. locatedValue request a (new ! i) v"
proof (cases "Input a = Input (new ! i)")
  case False
  with assms(1,2) have "locatedValue request a (new ! i) (Input (new ! i))"
    by (simp add: locatedValue_def)
  then show ?thesis ..
next
  case True
  with assms(4) have
    "(find (\<lambda>user. user_Name user = Username (UserInfo request)) (Users a) = None \<and>
      find (\<lambda>user. user_Name user = Username (UserInfo request)) (Users (new ! i)) \<noteq> None) \<or>
     (\<exists>x y. find (\<lambda>user. user_Name user = Username (UserInfo request)) (Users a) = Some x \<and>
        find (\<lambda>user. user_Name user = Username (UserInfo request)) (Users (new ! i)) = Some y \<and>
        user_Input x \<noteq> user_Input y)"
    by blast
  then have "\<exists>y. find (\<lambda>user. user_Name user = Username (UserInfo request)) (Users (new ! i)) =
        Some y \<and>
      find (\<lambda>user. user_Name user = Username (UserInfo request)) (Users a) \<noteq> Some y"
    by auto
  then obtain y where
    y: "find (\<lambda>user. user_Name user = Username (UserInfo request)) (Users (new ! i)) = Some y"
    and d: "find (\<lambda>user. user_Name user = Username (UserInfo request)) (Users a) \<noteq> Some y"
    by blast
  from y have "y \<in> set (Users (new ! i))" by (auto dest: find_in_set)
  with True y d assms(1,2) have "locatedValue request a (new ! i) (user_Input y)"
    by (auto simp: locatedValue_def)
  then show ?thesis ..
qed

lemma group_change_absent:
  assumes "\<not> (i < length new \<and>
        (Input a \<noteq> Input (new ! i) \<or>
         (find (\<lambda>user. user_Name user = c) (Users a) = None \<and>
          find (\<lambda>user. user_Name user = c) (Users (new ! i)) \<noteq> None) \<or>
         (\<exists>x \<in> set (Users a). \<exists>y \<in> set (Users (new ! i)).
            find (\<lambda>user. user_Name user = c) (Users a) = Some x \<and>
            find (\<lambda>user. user_Name user = c) (Users (new ! i)) = Some y \<and>
            user_Input x \<noteq> user_Input y)))"
  shows "groupMemberChange c i a new = None"
proof (cases "i < length new")
  case False
  then show ?thesis
    by (simp add: groupMemberChange_def Let_def split: option.splits)
next
  case True
  with assms have s: "Input a = Input (new ! i)"
    and n: "find (\<lambda>user. user_Name user = c) (Users a) = None \<longrightarrow>
            find (\<lambda>user. user_Name user = c) (Users (new ! i)) = None"
    and e: "\<And>x y. find (\<lambda>user. user_Name user = c) (Users a) = Some x \<Longrightarrow>
            find (\<lambda>user. user_Name user = c) (Users (new ! i)) = Some y \<Longrightarrow>
            user_Input x = user_Input y"
    by (auto dest: find_in_set)
  show ?thesis
    using True s n e
    by (auto simp: groupMemberChange_def Let_def list_ex_find split: option.splits)
qed

text \<open>
  C8 (as the code has it). The scan returns at the first index whose round returns, and the
  result is the result of that one round, whatever entries follow: they are not inspected.
  At a User entry of the requester's name, when the new list has an entry at that index, the
  scan always returns there, with the outcome of comparing the two entries. At a Group entry
  the requester belongs to, the scan returns there exactly when the new list has an entry at
  that index and one of three changes is found: the group's own input differs; the requester
  is not among the old members and is among the new ones; or the requester's first member
  entries in the old and in the new list differ in input. The result is then the validation of
  one value. With none of the three, the scan goes on to the entries after it, and a later
  entry that matches the requester is inspected.
\<close>

theorem scan_stops_at_first_return:
  assumes "\<forall>j<length pre. approvalChangedAt request j (pre ! j) new = Inr None"
  shows "(approvalChangedAt request (length pre) a new = Inr (Some r) \<longrightarrow>
            IsUserApprovalChanged (pre @ a # post) new request = Inr r) \<and>
         (Name a = Username (UserInfo request) \<and> DefaultedApproverType (Type a) = ''User'' \<and>
          length pre < length new \<longrightarrow>
            approvalChangedAt request (length pre) a new =
              Inr (Some (hasOnlyInputChanged a (new ! length pre))) \<and>
            IsUserApprovalChanged (pre @ a # post) new request =
              Inr (hasOnlyInputChanged a (new ! length pre))) \<and>
         (DefaultedApproverType (Type a) = ''Group'' \<and> isUserInGroup request a \<longrightarrow>
            (if length pre < length new \<and>
                (Input a \<noteq> Input (new ! length pre) \<or>
                 (find (\<lambda>user. user_Name user = Username (UserInfo request)) (Users a) = None \<and>
                  find (\<lambda>user. user_Name user = Username (UserInfo request))
                    (Users (new ! length pre)) \<noteq> None) \<or>
                 (\<exists>x \<in> set (Users a). \<exists>y \<in> set (Users (new ! length pre)).
                    find (\<lambda>user. user_Name user = Username (UserInfo request)) (Users a) = Some x \<and>
                    find (\<lambda>user. user_Name user = Username (UserInfo request))
                      (Users (new ! length pre)) = Some y \<and>
                    user_Input x \<noteq> user_Input y))
             then (\<exists>v. approvalChangedAt request (length pre) a new = Inr (Some (validated v)) \<and>
                       IsUserApprovalChanged (pre @ a # post) new request = Inr (validated v))
             else approvalChangedAt request (length pre) a new = Inr None \<and>
                  IsUserApprovalChanged (pre @ a # post) new request =
                    approvalChangedFrom request (Suc (length pre)) post new))"
proof (intro conjI impI)
  assume "approvalChangedAt request (length pre) a new = Inr (Some r)"
  then show "IsUserApprovalChanged (pre @ a # post) new request = Inr r"
    using IsUserApprovalChanged_at [OF assms, of a post] by simp
next
  assume u: "Name a = Username (UserInfo request) \<and> DefaultedApproverType (Type a) = ''User'' \<and>
          length pre < length new"
  then show s: "approvalChangedAt request (length pre) a new =
              Inr (Some (hasOnlyInputChanged a (new ! length pre)))"
    by (simp add: approvalChangedAt_def)
  then show "IsUserApprovalChanged (pre @ a # post) new request =
              Inr (hasOnlyInputChanged a (new ! length pre))"
    using IsUserApprovalChanged_at [OF assms, of a post] by simp
next
  let ?i = "length pre"
  let ?found = "?i < length new \<and>
                (Input a \<noteq> Input (new ! ?i) \<or>
                 (find (\<lambda>user. user_Name user = Username (UserInfo request)) (Users a) = None \<and>
                  find (\<lambda>user. user_Name user = Username (UserInfo request))
                    (Users (new ! ?i)) \<noteq> None) \<or>
                 (\<exists>x \<in> set (Users a). \<exists>y \<in> set (Users (new ! ?i)).
                    find (\<lambda>user. user_Name user = Username (UserInfo request)) (Users a) = Some x \<and>
                    find (\<lambda>user. user_Name user = Username (UserInfo request))
                      (Users (new ! ?i)) = Some y \<and>
                    user_Input x \<noteq> user_Input y))"
  assume g: "DefaultedApproverType (Type a) = ''Group'' \<and> isUserInGroup request a"
  show "if ?found
        then (\<exists>v. approvalChangedAt request ?i a new = Inr (Some (validated v)) \<and>
                  IsUserApprovalChanged (pre @ a # post) new request = Inr (validated v))
        else approvalChangedAt request ?i a new = Inr None \<and>
             IsUserApprovalChanged (pre @ a # post) new request =
               approvalChangedFrom request (Suc ?i) post new"
  proof (cases ?found)
    case True
    then have i: "?i < length new" by blast
    from g True obtain v where "locatedValue request a (new ! ?i) v"
      using group_change_found [of a request ?i new] by blast
    from located_step [OF i this]
    have s: "approvalChangedAt request ?i a new = Inr (Some (validated v))" .
    then have "IsUserApprovalChanged (pre @ a # post) new request = Inr (validated v)"
      using IsUserApprovalChanged_at [OF assms, of a post] by simp
    with s True show ?thesis by auto
  next
    case False
    then have "groupMemberChange (Username (UserInfo request)) ?i a new = None"
      by (rule group_change_absent)
    with g have s: "approvalChangedAt request ?i a new = Inr None"
      by (auto simp: approvalChangedAt_def)
    then have "IsUserApprovalChanged (pre @ a # post) new request =
               approvalChangedFrom request (Suc ?i) post new"
      using IsUserApprovalChanged_at [OF assms, of a post] by simp
    with s False show ?thesis by auto
  qed
qed

theorem scan_stops_at_first_return_witness:
  "approvalChangedAt (requestBy ''alice'' [''qa'']) 0 ([groupEntry ''qa'' '''' []] ! 0)
     [groupEntry ''qa'' '''' [], userEntry ''alice'' ''approve'', userEntry ''alice'' ''reject''] =
     Inr None \<and>
   Name (userEntry ''alice'' '''') = Username (UserInfo (requestBy ''alice'' [''qa''])) \<and>
   DefaultedApproverType (Type (userEntry ''alice'' '''')) = ''User'' \<and>
   length [groupEntry ''qa'' '''' []] <
     length [groupEntry ''qa'' '''' [], userEntry ''alice'' ''approve'', userEntry ''alice'' ''reject''] \<and>
   approvalChangedAt (requestBy ''alice'' [''qa'']) (length [groupEntry ''qa'' '''' []])
     (userEntry ''alice'' '''')
     [groupEntry ''qa'' '''' [], userEntry ''alice'' ''approve'', userEntry ''alice'' ''reject''] =
     Inr (Some (True, None)) \<and>
   IsUserApprovalChanged ([groupEntry ''qa'' '''' []] @ userEntry ''alice'' '''' # [userEntry ''alice'' ''''])
     [groupEntry ''qa'' '''' [], userEntry ''alice'' ''approve'', userEntry ''alice'' ''reject'']
     (requestBy ''alice'' [''qa'']) = Inr (True, None) \<and>
   DefaultedApproverType (Type (groupEntry ''qa'' '''' [])) = ''Group'' \<and>
   isUserInGroup (requestBy ''alice'' [''qa'']) (groupEntry ''qa'' '''' []) \<and>
   IsUserApprovalChanged ([] @ groupEntry ''qa'' '''' [] # [userEntry ''alice'' ''''])
     [groupEntry ''qa'' '''' [], userEntry ''alice'' ''approve''] (requestBy ''alice'' [''qa'']) =
     approvalChangedFrom (requestBy ''alice'' [''qa'']) (Suc (length ([] :: ApproverDetails list)))
       [userEntry ''alice'' ''''] [groupEntry ''qa'' '''' [], userEntry ''alice'' ''approve''] \<and>
   (\<exists>v. IsUserApprovalChanged ([] @ groupEntry ''qa'' '''' [] # [userEntry ''alice'' ''''])
          [groupEntry ''qa'' ''approve'' [], userEntry ''alice'' ''approve'']
          (requestBy ''alice'' [''qa'']) = Inr (validated v))"
proof -
  let ?R = "requestBy ''alice'' [''qa'']"
  let ?g = "groupEntry ''qa'' '''' []"
  let ?new = "[?g, userEntry ''alice'' ''approve'', userEntry ''alice'' ''reject'']"
  let ?new2 = "[?g, userEntry ''alice'' ''approve'']"
  let ?new3 = "[groupEntry ''qa'' ''approve'' [], userEntry ''alice'' ''approve'']"
  have s0: "approvalChangedAt ?R 0 ([?g] ! 0) ?new = Inr None"
    by (simp add: fixture_defs entry_defs locator_defs)
  then have p: "\<forall>j<length [?g]. approvalChangedAt ?R j ([?g] ! j) ?new = Inr None"
    by simp
  have n: "Name (userEntry ''alice'' '''') = Username (UserInfo ?R)"
    and t: "DefaultedApproverType (Type (userEntry ''alice'' '''')) = ''User''"
    and l: "length [?g] < length ?new"
    by (simp_all add: fixture_defs DefaultedApproverType_def)
  have h: "hasOnlyInputChanged (userEntry ''alice'' '''') (?new ! length [?g]) = (True, None)"
    by (simp add: fixture_defs locator_defs)
  have g: "DefaultedApproverType (Type ?g) = ''Group''"
    and m: "isUserInGroup ?R ?g"
    by (simp_all add: fixture_defs entry_defs)
  have p2: "\<forall>j<length ([] :: ApproverDetails list).
      approvalChangedAt ?R j ([] ! j) ?new2 = Inr None"
    and p3: "\<forall>j<length ([] :: ApproverDetails list).
      approvalChangedAt ?R j ([] ! j) ?new3 = Inr None"
    by simp_all
  have c2: "\<not> (length ([] :: ApproverDetails list) < length ?new2 \<and>
      (Input ?g \<noteq> Input (?new2 ! length ([] :: ApproverDetails list)) \<or>
       (find (\<lambda>user. user_Name user = Username (UserInfo ?R)) (Users ?g) = None \<and>
        find (\<lambda>user. user_Name user = Username (UserInfo ?R))
          (Users (?new2 ! length ([] :: ApproverDetails list))) \<noteq> None) \<or>
       (\<exists>x \<in> set (Users ?g). \<exists>y \<in> set (Users (?new2 ! length ([] :: ApproverDetails list))).
          find (\<lambda>user. user_Name user = Username (UserInfo ?R)) (Users ?g) = Some x \<and>
          find (\<lambda>user. user_Name user = Username (UserInfo ?R))
            (Users (?new2 ! length ([] :: ApproverDetails list))) = Some y \<and>
          user_Input x \<noteq> user_Input y)))"
    by (simp add: fixture_defs)
  have c3: "length ([] :: ApproverDetails list) < length ?new3 \<and>
      (Input ?g \<noteq> Input (?new3 ! length ([] :: ApproverDetails list)) \<or>
       (find (\<lambda>user. user_Name user = Username (UserInfo ?R)) (Users ?g) = None \<and>
        find (\<lambda>user. user_Name user = Username (UserInfo ?R))
          (Users (?new3 ! length ([] :: ApproverDetails list))) \<noteq> None) \<or>
       (\<exists>x \<in> set (Users ?g). \<exists>y \<in> set (Users (?new3 ! length ([] :: ApproverDetails list))).
          find (\<lambda>user. user_Name user = Username (UserInfo ?R)) (Users ?g) = Some x \<and>
          find (\<lambda>user. user_Name user = Username (UserInfo ?R))
            (Users (?new3 ! length ([] :: ApproverDetails list))) = Some y \<and>
          user_Input x \<noteq> user_Input y))"
    by (simp add: fixture_defs)
  note w1 = scan_stops_at_first_return [OF p, of "userEntry ''alice'' ''''" "(True, None)"
        "[userEntry ''alice'' '''']"]
  note w2 = scan_stops_at_first_return [OF p2, of ?g "(True, None)" "[userEntry ''alice'' '''']"]
  note w3 = scan_stops_at_first_return [OF p3, of ?g "(True, None)" "[userEntry ''alice'' '''']"]
  have a1: "approvalChangedAt ?R (length [?g]) (userEntry ''alice'' '''') ?new =
      Inr (Some (True, None))"
    and a2: "IsUserApprovalChanged ([?g] @ userEntry ''alice'' '''' # [userEntry ''alice'' '''']) ?new ?R =
      Inr (True, None)"
    using w1 n t l h by simp_all
  have b: "IsUserApprovalChanged ([] @ ?g # [userEntry ''alice'' '''']) ?new2 ?R =
      approvalChangedFrom ?R (Suc (length ([] :: ApproverDetails list))) [userEntry ''alice'' ''''] ?new2"
    using w2 g m c2 by presburger
  have c: "\<exists>v. IsUserApprovalChanged ([] @ ?g # [userEntry ''alice'' '''']) ?new3 ?R =
      Inr (validated v)"
    using w3 g m c3 by (metis (no_types, lifting))
  from s0 n t l a1 a2 g m b c show ?thesis by blast
qed

text \<open>
  The first entry that matches the requester is the group at index 0, the same in both new
  lists and unchanged. The result differs with the User entry at index 1: the later matching
  entry is inspected.
\<close>

theorem scan_stops_at_first_return_counterexample:
  "DefaultedApproverType (Type (groupEntry ''qa'' '''' [])) = ''Group'' \<and>
   isUserInGroup (requestBy ''alice'' [''qa'']) (groupEntry ''qa'' '''' []) \<and>
   IsUserApprovalChanged [groupEntry ''qa'' '''' [], userEntry ''alice'' '''']
     [groupEntry ''qa'' '''' [], userEntry ''alice'' ''approve''] (requestBy ''alice'' [''qa'']) =
     Inr (True, None) \<and>
   IsUserApprovalChanged [groupEntry ''qa'' '''' [], userEntry ''alice'' '''']
     [groupEntry ''qa'' '''' [], userEntry ''alice'' ''''] (requestBy ''alice'' [''qa'']) =
     Inr (False, None)"
  by (simp add: fixture_defs entry_defs locator_defs)

section \<open>The isolation check\<close>















section \<open>Validation errors and other parties\<close>







section \<open>Allowed updates\<close>






end
